theory Spec2Isabelle
  imports
    Complex_Main
    "HOL-Library.Char_ord"
    "HOL-Library.List_Lexorder"
    "HOL-Library.Product_Lexorder"
    "HOL-Library.Option_ord"
begin

section \<open>Expense statistics endpoints (backend/stats\_routes.py)\<close>

text \<open>
  The four endpoints of \<^verbatim>\<open>stats_routes.py\<close> build one SQL query each through the ORM
  and format the rows the query returns. The embedding below takes the table
  \<^verbatim>\<open>Expense\<close> as a list of rows and models each query clause by the list operation it
  denotes in SQL: \<^verbatim>\<open>filter\<close> keeps rows, \<^verbatim>\<open>group_by\<close> makes one result row per distinct key,
  the aggregates \<^verbatim>\<open>func.sum/count/avg/min/max\<close> range over the rows of one group and are
  \<^verbatim>\<open>NULL\<close> (Python \<^verbatim>\<open>None\<close>) on no rows, \<^verbatim>\<open>order_by(... .desc())\<close> sorts the result rows.
  \<^verbatim>\<open>func.strftime\<close> passes the call to the database engine; \<^verbatim>\<open>strftime(format, date)\<close> is
  the date formatting function of SQLite, and its directives \<^verbatim>\<open>%Y\<close>, \<^verbatim>\<open>%m\<close> and \<^verbatim>\<open>%W\<close>
  are modelled as SQLite documents them. The arithmetic on amounts (the engine's sum and
  average, Python's \<^verbatim>\<open>round\<close>) is floating-point arithmetic: the endpoints take it as a
  parameter, and the scenarios are evaluated with IEEE double precision.
\<close>

subsection \<open>Calendar dates\<close>

text \<open>
  \<^verbatim>\<open>datetime.date\<close>: a year, a month and a day, compared in this order. The column
  \<^verbatim>\<open>Expense.date\<close> is stored as the text \<^verbatim>\<open>YYYY-MM-DD\<close>, whose order is the same.
\<close>

datatype date = Date (year: nat) (month: nat) (day: nat)

instantiation date :: linorder
begin

definition less_eq_date :: "date \<Rightarrow> date \<Rightarrow> bool" where
  "less_eq_date a b \<longleftrightarrow> (year a, month a, day a) \<le> (year b, month b, day b)"

definition less_date :: "date \<Rightarrow> date \<Rightarrow> bool" where
  "less_date a b \<longleftrightarrow> (year a, month a, day a) < (year b, month b, day b)"

instance
proof
  fix a b c :: date
  show "a < b \<longleftrightarrow> a \<le> b \<and> \<not> b \<le> a"
    unfolding less_eq_date_def less_date_def by (rule less_le_not_le)
  show "a \<le> a"
    unfolding less_eq_date_def by simp
  show "a \<le> b \<Longrightarrow> b \<le> c \<Longrightarrow> a \<le> c"
    unfolding less_eq_date_def by (rule order_trans)
  show "a \<le> b \<Longrightarrow> b \<le> a \<Longrightarrow> a = b"
    unfolding less_eq_date_def by (cases a, cases b) auto
  show "a \<le> b \<or> b \<le> a"
    unfolding less_eq_date_def by (rule linear)
qed

end

definition is_leap :: "nat \<Rightarrow> bool" where
  "is_leap y \<longleftrightarrow> y mod 4 = 0 \<and> (y mod 100 \<noteq> 0 \<or> y mod 400 = 0)"

definition days_in_month :: "nat \<Rightarrow> nat \<Rightarrow> nat" where
  "days_in_month y m =
     (if m = 2 then (if is_leap y then 29 else 28)
      else if m = 4 \<or> m = 6 \<or> m = 9 \<or> m = 11 then 30 else 31)"

text \<open>The dates the constructor of \<^verbatim>\<open>datetime.date\<close> accepts.\<close>

definition valid_date :: "date \<Rightarrow> bool" where
  "valid_date d \<longleftrightarrow>
     1 \<le> year d \<and> year d \<le> 9999 \<and> 1 \<le> month d \<and> month d \<le> 12 \<and>
     1 \<le> day d \<and> day d \<le> days_in_month (year d) (month d)"

text \<open>Days of the proleptic Gregorian calendar before 1 January of year \<open>y\<close>.\<close>

definition days_before_year :: "nat \<Rightarrow> nat" where
  "days_before_year y =
     (y - 1) * 365 + (y - 1) div 4 - (y - 1) div 100 + (y - 1) div 400"

text \<open>Days of year \<open>y\<close> before the first day of month \<open>m\<close>.\<close>

definition days_before_month :: "nat \<Rightarrow> nat \<Rightarrow> nat" where
  "days_before_month y m = sum_list (map (days_in_month y) [1..<m])"

text \<open>The day number of a date, 1 January of year 1 (a Monday) being day 1.\<close>

definition toordinal :: "date \<Rightarrow> nat" where
  "toordinal d = days_before_year (year d) + days_before_month (year d) (month d) + day d"

text \<open>Days since the last Monday: 0 on a Monday, 6 on a Sunday.\<close>

definition days_after_monday :: "date \<Rightarrow> nat" where
  "days_after_monday d = (toordinal d + 6) mod 7"

text \<open>Days since 1 January of the same year: 0 on 1 January.\<close>

definition days_after_jan01 :: "date \<Rightarrow> nat" where
  "days_after_jan01 d = days_before_month (year d) (month d) + day d - 1"

subsection \<open>Formatting: \<^verbatim>\<open>strftime\<close> and \<^verbatim>\<open>str\<close>\<close>

definition digit :: "nat \<Rightarrow> char" where
  "digit n = ''0123456789'' ! (n mod 10)"

text \<open>The decimal digits of a natural number, as \<^verbatim>\<open>%d\<close> prints them.\<close>

fun decimal :: "nat \<Rightarrow> string" where
  "decimal n = (if n < 10 then [digit n] else decimal (n div 10) @ [digit n])"

declare decimal.simps [simp del]

text \<open>\<^verbatim>\<open>%0wd\<close>: at least \<open>w\<close> digits, padded with zeros on the left.\<close>

definition zero_pad :: "nat \<Rightarrow> nat \<Rightarrow> string" where
  "zero_pad w n = replicate (w - length (decimal n)) CHR ''0'' @ decimal n"

text \<open>
  SQLite's \<^verbatim>\<open>%W\<close>: "week of year (00-53), week 01 starts on the first Monday". SQLite
  computes it as \<^verbatim>\<open>(daysAfterJan01 - daysAfterMonday + 7) / 7\<close>.
\<close>

definition week_of_year :: "date \<Rightarrow> nat" where
  "week_of_year d = (days_after_jan01 d + 7 - days_after_monday d) div 7"

text \<open>\<^verbatim>\<open>func.strftime('%Y-W%W', Expense.date)\<close>\<close>

definition strftime_Y_W :: "date \<Rightarrow> string" where
  "strftime_Y_W d = zero_pad 4 (year d) @ ''-W'' @ zero_pad 2 (week_of_year d)"


text \<open>\<^verbatim>\<open>str(d)\<close> of a \<^verbatim>\<open>datetime.date\<close>: the ISO format \<^verbatim>\<open>YYYY-MM-DD\<close>.\<close>

definition str_date :: "date \<Rightarrow> string" where
  "str_date d = zero_pad 4 (year d) @ ''-'' @ zero_pad 2 (month d) @ ''-'' @ zero_pad 2 (day d)"

subsection \<open>The table and the result shapes\<close>

text \<open>
  Modelled from the spec: the table \<^verbatim>\<open>Expense\<close> of \<^verbatim>\<open>models.py\<close>, which is not among the
  sources. The specification gives an expense record an integer id, an amount, a
  category string and a calendar date; these are the four columns the endpoints read.
  The response models declare every monetary field a \<^verbatim>\<open>float\<close>: an amount is a
  floating-point value of the database engine, of a type \<open>'a\<close> that the embedding keeps
  open and on which it uses the engine's order only.
\<close>

record 'a Expense =
  expense_id :: int
  amount :: 'a
  category :: string
  date :: date

text \<open>The response models of \<^verbatim>\<open>stats_models.py\<close>.\<close>

record 'a CategoryStats =
  cs_category :: string
  cs_total :: 'a
  cs_count :: nat
  cs_average :: 'a

record 'a OverallStats =
  os_total :: 'a
  os_count :: nat
  os_average :: 'a
  os_min :: 'a
  os_max :: 'a

record 'a DailyStats =
  ds_date :: string
  ds_total :: 'a
  ds_count :: nat

record 'a WeeklyStats =
  ws_week :: string
  ws_start_date :: string
  ws_end_date :: string
  ws_total :: 'a
  ws_count :: nat


text \<open>\<^verbatim>\<open>/by-date\<close> returns a list of daily or of weekly dictionaries.\<close>

datatype 'a date_stats = Daily "'a DailyStats" | Weekly "'a WeeklyStats"

subsection \<open>Floating-point arithmetic\<close>

text \<open>
  The endpoints do no arithmetic of their own: the sums and averages are computed by the
  database engine on its floating-point values, and the results are rounded by Python's
  \<^verbatim>\<open>round(x, 2)\<close>. These operations are parameters of the embedding:
  \<^item> \<open>fsum\<close>, what the engine's \<^verbatim>\<open>sum\<close> returns for the values of a non-empty group, given
    in the order of the table;
  \<^item> \<open>fdiv\<close>, the engine's division of a sum by a count (SQLite's \<^verbatim>\<open>avg\<close> is its sum
    divided by the number of values);
  \<^item> \<open>fround\<close>, Python's \<^verbatim>\<open>round(x, 2)\<close> on a \<^verbatim>\<open>float\<close>.
\<close>

record 'a arithmetic =
  fsum :: "'a list \<Rightarrow> 'a"
  fdiv :: "'a \<Rightarrow> nat \<Rightarrow> 'a"
  fround :: "'a \<Rightarrow> 'a"

subsection \<open>Errors\<close>

text \<open>
  Every endpoint body runs inside \<^verbatim>\<open>try: ... except Exception as e: raise
  HTTPException(status_code=500, detail=str(e))\<close>. The one exception the bodies can raise
  on their own is the \<^verbatim>\<open>TypeError\<close> of \<^verbatim>\<open>round(None, 2)\<close>.
\<close>

datatype py_exception = TypeError

datatype http_error = HTTPException nat py_exception

definition catch_exception :: "py_exception + 'a \<Rightarrow> http_error + 'a" where
  "catch_exception r = (case r of Inl e \<Rightarrow> Inl (HTTPException 500 e) | Inr v \<Rightarrow> Inr v)"

subsection \<open>Query clauses\<close>

text \<open>
  \<^verbatim>\<open>if start_date: query = query.filter(Expense.date >= start_date)\<close> and
  \<^verbatim>\<open>if end_date: query = query.filter(Expense.date <= end_date)\<close>, the same two
  statements in three endpoints. A \<^verbatim>\<open>datetime.date\<close> is always true, so each test asks
  whether the parameter was given.
\<close>

definition apply_date_filters ::
  "date option \<Rightarrow> date option \<Rightarrow> 'a Expense list \<Rightarrow> 'a Expense list" where
  "apply_date_filters start_date end_date query =
     (let query1 = (case start_date of
                      Some s \<Rightarrow> filter (\<lambda>e. s \<le> date e) query
                    | None \<Rightarrow> query);
          query2 = (case end_date of
                      Some t \<Rightarrow> filter (\<lambda>e. date e \<le> t) query1
                    | None \<Rightarrow> query1)
      in query2)"

text \<open>
  \<^verbatim>\<open>GROUP BY\<close>: one group per distinct key, holding the rows of that key. SQL leaves the
  order of the groups open; every query here sorts them afterwards.
\<close>

definition rows_with :: "('a \<Rightarrow> 'k) \<Rightarrow> 'k \<Rightarrow> 'a list \<Rightarrow> 'a list" where
  "rows_with f k rows = filter (\<lambda>r. f r = k) rows"

definition group_by :: "('a \<Rightarrow> 'k) \<Rightarrow> 'a list \<Rightarrow> ('k \<times> 'a list) list" where
  "group_by f rows = map (\<lambda>k. (k, rows_with f k rows)) (remdups (map f rows))"

text \<open>
  \<^verbatim>\<open>ORDER BY ... DESC\<close>. \<^verbatim>\<open>NULL\<close> sorts below every value, as \<open>None\<close> does in the
  order on \<open>option\<close>. Rows of equal key come in an order SQL does not fix.
\<close>

definition order_by_desc :: "('a \<Rightarrow> 'k::linorder) \<Rightarrow> 'a list \<Rightarrow> 'a list" where
  "order_by_desc f rows = rev (sort_key f rows)"

text \<open>The aggregates; all but \<^verbatim>\<open>count\<close> are \<^verbatim>\<open>NULL\<close> over no rows.\<close>

definition func_sum :: "'a arithmetic \<Rightarrow> 'a list \<Rightarrow> 'a option" where
  "func_sum ops xs = (if xs = [] then None else Some (fsum ops xs))"

definition func_count :: "'a list \<Rightarrow> nat" where
  "func_count xs = length xs"

definition func_avg :: "'a arithmetic \<Rightarrow> 'a list \<Rightarrow> 'a option" where
  "func_avg ops xs = (if xs = [] then None else Some (fdiv ops (fsum ops xs) (length xs)))"

definition func_min :: "'a::linorder list \<Rightarrow> 'a option" where
  "func_min xs = (case xs of [] \<Rightarrow> None | x # ys \<Rightarrow> Some (fold min ys x))"

definition func_max :: "'a::linorder list \<Rightarrow> 'a option" where
  "func_max xs = (case xs of [] \<Rightarrow> None | x # ys \<Rightarrow> Some (fold max ys x))"

subsection \<open>Formatting the rows\<close>

text \<open>\<^verbatim>\<open>round(v, 2)\<close>, which raises on \<^verbatim>\<open>None\<close>.\<close>

definition round2 :: "'a arithmetic \<Rightarrow> 'a option \<Rightarrow> py_exception + 'a" where
  "round2 ops v = (case v of None \<Rightarrow> Inl TypeError | Some x \<Rightarrow> Inr (fround ops x))"

text \<open>\<^verbatim>\<open>str(v)\<close> of a date read from the database; \<^verbatim>\<open>str(None)\<close> is \<^verbatim>\<open>'None'\<close>.\<close>

definition str_opt_date :: "date option \<Rightarrow> string" where
  "str_opt_date v = (case v of None \<Rightarrow> ''None'' | Some d \<Rightarrow> str_date d)"

text \<open>
  \<^verbatim>\<open>stats = []; for row in results: stats.append({...})\<close>: the dictionaries in the
  order of the rows, or the first exception a row raises.
\<close>

fun append_each :: "('r \<Rightarrow> py_exception + 's) \<Rightarrow> 'r list \<Rightarrow> py_exception + 's list" where
  "append_each f [] = Inr []"
| "append_each f (row # results) =
     (case f row of
        Inl e \<Rightarrow> Inl e
      | Inr s \<Rightarrow> (case append_each f results of Inl e \<Rightarrow> Inl e | Inr stats \<Rightarrow> Inr (s # stats)))"

subsection \<open>\<^verbatim>\<open>get_stats_by_category\<close>\<close>

text \<open>The rows of the query: category, \<^verbatim>\<open>sum\<close>, \<^verbatim>\<open>count\<close>, \<^verbatim>\<open>avg\<close>.\<close>

definition category_results ::
  "'a::linorder arithmetic \<Rightarrow> date option \<Rightarrow> date option \<Rightarrow> 'a Expense list \<Rightarrow>
   (string \<times> 'a option \<times> nat \<times> 'a option) list" where
  "category_results ops start_date end_date db =
     order_by_desc (\<lambda>(c, tot, n, average). tot)
       (map (\<lambda>(c, g). (c, func_sum ops (map amount g), func_count (map expense_id g),
                        func_avg ops (map amount g)))
          (group_by category (apply_date_filters start_date end_date db)))"

definition category_stat ::
  "'a arithmetic \<Rightarrow> string \<times> 'a option \<times> nat \<times> 'a option \<Rightarrow> py_exception + 'a CategoryStats" where
  "category_stat ops row =
     (case row of (c, tot, n, average) \<Rightarrow>
        (case round2 ops tot of
           Inl e \<Rightarrow> Inl e
         | Inr t \<Rightarrow>
             (case round2 ops average of
                Inl e \<Rightarrow> Inl e
              | Inr a \<Rightarrow> Inr \<lparr>cs_category = c, cs_total = t, cs_count = n, cs_average = a\<rparr>)))"

definition get_stats_by_category ::
  "'a::linorder arithmetic \<Rightarrow> date option \<Rightarrow> date option \<Rightarrow> 'a Expense list \<Rightarrow>
   http_error + 'a CategoryStats list" where
  "get_stats_by_category ops start_date end_date db =
     catch_exception
       (append_each (category_stat ops) (category_results ops start_date end_date db))"

subsection \<open>\<^verbatim>\<open>get_stats_total\<close>\<close>

text \<open>
  A query of aggregates without \<^verbatim>\<open>GROUP BY\<close> has exactly one row, also over no rows;
  \<^verbatim>\<open>query.first()\<close> is that row.
\<close>

definition total_result ::
  "'a::linorder arithmetic \<Rightarrow> date option \<Rightarrow> date option \<Rightarrow> 'a Expense list \<Rightarrow>
   'a option \<times> nat \<times> 'a option \<times> 'a option \<times> 'a option" where
  "total_result ops start_date end_date db =
     (let rows = apply_date_filters start_date end_date db
      in (func_sum ops (map amount rows), func_count (map expense_id rows),
          func_avg ops (map amount rows), func_min (map amount rows),
          func_max (map amount rows)))"

definition get_stats_total ::
  "'a::{linorder, zero} arithmetic \<Rightarrow> date option \<Rightarrow> date option \<Rightarrow> 'a Expense list \<Rightarrow>
   http_error + 'a OverallStats" where
  "get_stats_total ops start_date end_date db =
     catch_exception
       (case total_result ops start_date end_date db of (r0, r1, r2, r3, r4) \<Rightarrow>
          if r0 = None
          then Inr \<lparr>os_total = 0, os_count = 0, os_average = 0, os_min = 0, os_max = 0\<rparr>
          else
            (case round2 ops r0 of Inl e \<Rightarrow> Inl e | Inr t \<Rightarrow>
            (case round2 ops r2 of Inl e \<Rightarrow> Inl e | Inr a \<Rightarrow>
            (case round2 ops r3 of Inl e \<Rightarrow> Inl e | Inr lo \<Rightarrow>
            (case round2 ops r4 of Inl e \<Rightarrow> Inl e | Inr hi \<Rightarrow>
               Inr \<lparr>os_total = t, os_count = r1, os_average = a, os_min = lo, os_max = hi\<rparr>)))))"

subsection \<open>\<^verbatim>\<open>get_stats_by_date\<close>\<close>

text \<open>The daily query: date, \<^verbatim>\<open>sum\<close>, \<^verbatim>\<open>count\<close>, by descending date.\<close>

definition daily_results ::
  "'a arithmetic \<Rightarrow> date option \<Rightarrow> date option \<Rightarrow> 'a Expense list \<Rightarrow>
   (date \<times> 'a option \<times> nat) list" where
  "daily_results ops start_date end_date db =
     order_by_desc (\<lambda>(date_val, tot, n). date_val)
       (map (\<lambda>(d, g). (d, func_sum ops (map amount g), func_count (map expense_id g)))
          (group_by date (apply_date_filters start_date end_date db)))"

definition daily_stat ::
  "'a arithmetic \<Rightarrow> date \<times> 'a option \<times> nat \<Rightarrow> py_exception + 'a date_stats" where
  "daily_stat ops row =
     (case row of (date_val, tot, n) \<Rightarrow>
        (case round2 ops tot of
           Inl e \<Rightarrow> Inl e
         | Inr t \<Rightarrow> Inr (Daily \<lparr>ds_date = str_date date_val, ds_total = t, ds_count = n\<rparr>)))"

text \<open>
  The weekly query: the week label \<^verbatim>\<open>strftime('%Y-W%W', date)\<close>, \<^verbatim>\<open>min\<close> and \<^verbatim>\<open>max\<close> of
  the dates, \<^verbatim>\<open>sum\<close>, \<^verbatim>\<open>count\<close>, by descending label.
\<close>

definition weekly_results ::
  "'a arithmetic \<Rightarrow> date option \<Rightarrow> date option \<Rightarrow> 'a Expense list \<Rightarrow>
   (string \<times> date option \<times> date option \<times> 'a option \<times> nat) list" where
  "weekly_results ops start_date end_date db =
     order_by_desc (\<lambda>(week, start, stop, tot, n). week)
       (map (\<lambda>(w, g). (w, func_min (map date g), func_max (map date g),
                        func_sum ops (map amount g), func_count (map expense_id g)))
          (group_by (\<lambda>e. strftime_Y_W (date e)) (apply_date_filters start_date end_date db)))"

definition weekly_stat ::
  "'a arithmetic \<Rightarrow> string \<times> date option \<times> date option \<times> 'a option \<times> nat \<Rightarrow>
   py_exception + 'a date_stats" where
  "weekly_stat ops row =
     (case row of (week, start, stop, tot, n) \<Rightarrow>
        (case round2 ops tot of
           Inl e \<Rightarrow> Inl e
         | Inr t \<Rightarrow>
             Inr (Weekly \<lparr>ws_week = week, ws_start_date = str_opt_date start,
                          ws_end_date = str_opt_date stop, ws_total = t, ws_count = n\<rparr>)))"

text \<open>
  The parameter \<^verbatim>\<open>grouping\<close> is declared \<^verbatim>\<open>Query("daily")\<close>: \<open>None\<close> stands for a request
  that leaves it out. The body tests \<^verbatim>\<open>grouping == 'daily'\<close> and has the weekly query in
  its \<^verbatim>\<open>else\<close>.
\<close>

definition get_stats_by_date ::
  "'a arithmetic \<Rightarrow> date option \<Rightarrow> date option \<Rightarrow> string option \<Rightarrow> 'a Expense list \<Rightarrow>
   http_error + 'a date_stats list" where
  "get_stats_by_date ops start_date end_date grouping_param db =
     (let grouping = (case grouping_param of None \<Rightarrow> ''daily'' | Some g \<Rightarrow> g)
      in catch_exception
           (if grouping = ''daily''
            then append_each (daily_stat ops) (daily_results ops start_date end_date db)
            else append_each (weekly_stat ops) (weekly_results ops start_date end_date db)))"

subsection \<open>\<^verbatim>\<open>get_stats_by_month\<close>\<close>




section \<open>IEEE double precision\<close>

text \<open>
  The scenarios are evaluated with the arithmetic of IEEE 754 binary64, the \<^verbatim>\<open>REAL\<close> of
  SQLite and the \<^verbatim>\<open>float\<close> of Python. A finite double is the rational number it
  stands for; infinities and NaN are not represented, and a result beyond the largest
  double, which the machine turns into an infinity, is outside this arithmetic.
\<close>

definition pow2 :: "int \<Rightarrow> rat" where
  "pow2 k = (if 0 \<le> k then 2 ^ nat k else 1 / 2 ^ nat (- k))"

text \<open>
  Starting from \<open>k\<close>, the \<open>t\<close> with \<open>2\<^sup>t \<le> x < 2\<^sup>t\<^sup>+\<^sup>1\<close>, found in at most \<open>n\<close> steps.
\<close>

fun binade_search :: "nat \<Rightarrow> int \<Rightarrow> rat \<Rightarrow> int" where
  "binade_search 0 k x = k"
| "binade_search (Suc n) k x =
     (if pow2 (k + 1) \<le> x then binade_search n (k + 1) x
      else if x < pow2 k then binade_search n (k - 1) x
      else k)"

text \<open>
  The binary exponent of a non-zero \<open>x\<close>; the exponents of the doubles lie between -1074
  and 1023, well within the 2200 steps.
\<close>

definition binade :: "rat \<Rightarrow> int" where
  "binade x = binade_search 2200 0 \<bar>x\<bar>"

text \<open>The nearest integer, a value halfway between two integers going to the even one.\<close>

definition round_half_even :: "rat \<Rightarrow> int" where
  "round_half_even y =
     (let f = \<lfloor>y\<rfloor>; r = y - of_int f
      in if r < 1 / 2 then f else if 1 / 2 < r then f + 1
         else if even f then f else f + 1)"

text \<open>
  Rounding to the nearest double, ties to even: 53 significant bits, and steps of
  \<open>2\<^sup>-\<^sup>1\<^sup>0\<^sup>7\<^sup>4\<close> in the subnormal range.
\<close>

definition fl :: "rat \<Rightarrow> rat" where
  "fl x =
     (if x = 0 then 0
      else (let e = max (binade x - 52) (- 1074)
            in of_int (round_half_even (x / pow2 e)) * pow2 e))"

text \<open>
  \<^item> \<open>fsum\<close>: the values added one by one to an accumulator that starts at 0, each
    addition rounded. (SQLite accumulates in this way; from version 3.44 on it also
    carries a compensation term, which changes nothing for one or two values, the
    groups evaluated below: either way the result is the double nearest the exact sum.)
  \<^item> \<open>fdiv\<close>: the rounded quotient.
  \<^item> \<open>fround\<close>: \<^verbatim>\<open>round(x, 2)\<close> of a \<^verbatim>\<open>float\<close> rounds the exact value of \<open>x\<close> to two
    decimals, ties to even, and returns the double nearest that decimal.
\<close>

definition ieee :: "rat arithmetic" where
  "ieee = \<lparr>fsum = foldl (\<lambda>s x. fl (s + x)) 0,
           fdiv = (\<lambda>s n. fl (s / of_nat n)),
           fround = (\<lambda>x. fl (of_int (round_half_even (x * 100)) / 100))\<rparr>"

section \<open>Reference notions and scenarios\<close>

subsection \<open>Weeks of the calendar\<close>

text \<open>
  The number of days from 1 January of the year of \<open>d\<close> through \<open>d\<close> that fall on the
  weekday \<open>w\<close> (0 for Monday, 6 for Sunday). A week numbering that starts at 0 and goes up
  on every day of weekday \<open>w\<close> gives \<open>d\<close> this number.
\<close>

definition weekdays_through :: "nat \<Rightarrow> date \<Rightarrow> nat" where
  "weekdays_through w d =
     length (filter (\<lambda>k. (toordinal (Date (year d) 1 1) + k + 6) mod 7 = w)
               [0..<Suc (days_after_jan01 d)])"

text \<open>
  The week label as the specification words it: \<^verbatim>\<open>{year}-W{nn}\<close> with the week number
  that is 0 before the first Sunday of the year and goes up on each Sunday.
\<close>

definition sunday_week_label :: "date \<Rightarrow> string" where
  "sunday_week_label d = zero_pad 4 (year d) @ ''-W'' @ zero_pad 2 (weekdays_through 6 d)"

text \<open>The same label with weeks that go up on each Monday.\<close>

definition monday_week_label :: "date \<Rightarrow> string" where
  "monday_week_label d = zero_pad 4 (year d) @ ''-W'' @ zero_pad 2 (weekdays_through 0 d)"

text \<open>
  An ISO 8601 week runs from a Monday to the following Sunday: two dates lie in the same
  ISO week when the Mondays on or before them are the same day.
\<close>

definition same_iso_week :: "date \<Rightarrow> date \<Rightarrow> bool" where
  "same_iso_week a b \<longleftrightarrow>
     toordinal a - days_after_monday a = toordinal b - days_after_monday b"

subsection \<open>Scenarios of the specification\<close>

text \<open>The doubles nearest to the decimals below.\<close>

definition double_30_005 :: rat where
  "double_30_005 = fl (30005 / 1000)"

definition double_15_0025 :: rat where
  "double_15_0025 = fl (150025 / 10000)"

definition double_0_015 :: rat where
  "double_0_015 = fl (15 / 1000)"

definition double_20_005 :: rat where
  "double_20_005 = fl (20005 / 1000)"

definition double_30_01 :: rat where
  "double_30_01 = fl (3001 / 100)"

definition double_0_01 :: rat where
  "double_0_01 = fl (1 / 100)"

definition double_0_02 :: rat where
  "double_0_02 = fl (2 / 100)"

definition double_0_03 :: rat where
  "double_0_03 = fl (3 / 100)"

text \<open>
  The three records of the category scenario; the amount 20.005 is stored as the double
  nearest to it.
\<close>

definition category_scenario :: "rat Expense list" where
  "category_scenario =
     [\<lparr>expense_id = 1, amount = 10, category = ''food'', date = Date 2024 1 1\<rparr>,
      \<lparr>expense_id = 2, amount = double_20_005, category = ''food'', date = Date 2024 1 1\<rparr>,
      \<lparr>expense_id = 3, amount = 5, category = ''transport'', date = Date 2024 1 2\<rparr>]"

text \<open>Two records on Sunday 29 and Monday 30 December 2024.\<close>

definition year_end_scenario :: "rat Expense list" where
  "year_end_scenario =
     [\<lparr>expense_id = 1, amount = 10, category = ''food'', date = Date 2024 12 29\<rparr>,
      \<lparr>expense_id = 2, amount = 20, category = ''food'', date = Date 2024 12 30\<rparr>]"

text \<open>Records of a Tuesday and a Thursday of one week, and of the Monday after.\<close>

definition midweek_scenario :: "rat Expense list" where
  "midweek_scenario =
     [\<lparr>expense_id = 1, amount = 4, category = ''food'', date = Date 2024 3 5\<rparr>,
      \<lparr>expense_id = 2, amount = 6, category = ''rent'', date = Date 2024 3 7\<rparr>,
      \<lparr>expense_id = 3, amount = 1, category = ''food'', date = Date 2024 3 11\<rparr>]"


section \<open>Properties\<close>

subsection \<open>The date filter\<close>

lemma apply_date_filters_filter:
  "apply_date_filters start_date end_date db =
     filter (\<lambda>e. (case start_date of None \<Rightarrow> True | Some s \<Rightarrow> s \<le> date e) \<and>
                 (case end_date of None \<Rightarrow> True | Some t \<Rightarrow> date e \<le> t)) db"
  by (simp add: apply_date_filters_def split: option.splits)

lemma inverted_range_empty:
  fixes s t :: date
  assumes "t < s"
  shows "apply_date_filters (Some s) (Some t) db = []"
proof -
  have "\<not> (s \<le> date e \<and> date e \<le> t)" for e :: "'a Expense"
    using assms by auto
  then show ?thesis
    by (simp add: apply_date_filters_filter)
qed

lemma apply_date_filters_Nil: "apply_date_filters start_date end_date [] = []"
  by (simp add: apply_date_filters_filter)

lemma group_by_Nil: "group_by f [] = []"
  by (simp add: group_by_def)

lemma order_by_desc_Nil: "order_by_desc f [] = []"
  by (simp add: order_by_desc_def)

lemma append_each_map:
  "(\<And>r. r \<in> set rs \<Longrightarrow> f r = Inr (g r)) \<Longrightarrow> append_each f rs = Inr (map g rs)"
  by (induction rs) simp_all

lemma group_by_keys: "map fst (group_by f rows) = remdups (map f rows)"
  by (simp add: group_by_def comp_def)

lemma group_by_member:
  "(k, g) \<in> set (group_by f rows) \<longleftrightarrow> k \<in> f ` set rows \<and> g = rows_with f k rows"
  by (auto simp: group_by_def)

lemma rows_with_nonempty: "k \<in> f ` set rows \<Longrightarrow> rows_with f k rows \<noteq> []"
  by (auto simp: rows_with_def filter_empty_conv)

lemma sum_list_if_absent:
  "k \<notin> set ks \<Longrightarrow> (\<Sum>x\<leftarrow>ks. if k = x then Suc (h x) else h x) = (\<Sum>x\<leftarrow>ks. h x)"
  by (induction ks) auto

lemma sum_list_if_present:
  "distinct ks \<Longrightarrow> k \<in> set ks \<Longrightarrow>
     (\<Sum>x\<leftarrow>ks. if k = x then Suc (h x) else h x) = Suc (\<Sum>x\<leftarrow>ks. h x)"
  by (induction ks) (auto simp: sum_list_if_absent)

lemma rows_with_lengths:
  "distinct ks \<Longrightarrow> f ` set rows \<subseteq> set ks \<Longrightarrow>
     sum_list (map (\<lambda>k. length (rows_with f k rows)) ks) = length rows"
proof (induction rows)
  case Nil
  then show ?case by (simp add: rows_with_def)
next
  case (Cons r rows)
  then have "f r \<in> set ks" and "f ` set rows \<subseteq> set ks"
    by auto
  have "(\<Sum>k\<leftarrow>ks. length (rows_with f k (r # rows))) =
         (\<Sum>k\<leftarrow>ks. if f r = k then Suc (length (rows_with f k rows)) else length (rows_with f k rows))"
    by (rule arg_cong [where f = sum_list], rule map_cong) (simp_all add: rows_with_def)
  also have "\<dots> = Suc (\<Sum>k\<leftarrow>ks. length (rows_with f k rows))"
    using \<open>distinct ks\<close> \<open>f r \<in> set ks\<close> by (rule sum_list_if_present)
  finally show ?case
    using Cons.IH [OF \<open>distinct ks\<close> \<open>f ` set rows \<subseteq> set ks\<close>] by simp
qed

lemma group_by_lengths:
  "sum_list (map (\<lambda>kg. length (snd kg)) (group_by f rows)) = length rows"
proof -
  have "sum_list (map (\<lambda>kg. length (snd kg)) (group_by f rows)) =
          sum_list (map (\<lambda>k. length (rows_with f k rows)) (remdups (map f rows)))"
    by (simp add: group_by_def comp_def)
  also have "\<dots> = length rows"
    by (rule rows_with_lengths) simp_all
  finally show ?thesis .
qed

lemma set_order_by_desc: "set (order_by_desc f xs) = set xs"
  by (simp add: order_by_desc_def)


lemma sum_list_insort_key:
  fixes h :: "'a \<Rightarrow> 'b::comm_monoid_add"
  shows "sum_list (map h (insort_key f x xs)) = h x + sum_list (map h xs)"
  by (induction xs) (simp_all add: ac_simps)

lemma sum_list_order_by_desc:
  fixes h :: "'a \<Rightarrow> 'b::comm_monoid_add"
  shows "sum_list (map h (order_by_desc f xs)) = sum_list (map h xs)"
proof -
  have "sum_list (map h (sort_key f xs)) = sum_list (map h xs)"
    by (induction xs) (simp_all add: sum_list_insort_key)
  then show ?thesis
    by (simp add: order_by_desc_def rev_map [symmetric] sum_list_rev)
qed

lemma distinct_map_order_by_desc:
  "distinct (map g (order_by_desc f xs)) = distinct (map g xs)"
  by (simp add: order_by_desc_def distinct_map)

subsection \<open>Overall summary of no rows\<close>

lemma total_of_no_rows:
  assumes "apply_date_filters start_date end_date db = []"
  shows "get_stats_total ops start_date end_date db =
           Inr \<lparr>os_total = 0, os_count = 0, os_average = 0, os_min = 0, os_max = 0\<rparr>"
  using assms by (simp add: get_stats_total_def total_result_def func_sum_def catch_exception_def)

text \<open>
  C4. Whenever the filter leaves no record, the overall summary is the record of five
  zeros, returned as a normal result (\<open>Inr\<close>): so it is on an empty table, and so it is
  on a date range whose start lies after its end.
\<close>

theorem overall_zero_on_empty:
  "(apply_date_filters start_date end_date db = [] \<longrightarrow>
      get_stats_total ops start_date end_date db =
        Inr \<lparr>os_total = 0, os_count = 0, os_average = 0, os_min = 0, os_max = 0\<rparr>) \<and>
   get_stats_total ops start_date end_date [] =
     Inr \<lparr>os_total = 0, os_count = 0, os_average = 0, os_min = 0, os_max = 0\<rparr> \<and>
   (t < s \<longrightarrow>
      get_stats_total ops (Some s) (Some t) db =
        Inr \<lparr>os_total = 0, os_count = 0, os_average = 0, os_min = 0, os_max = 0\<rparr>)"
  by (simp add: total_of_no_rows apply_date_filters_Nil inverted_range_empty)

theorem overall_zero_on_empty_witness:
  "apply_date_filters (Some (Date 2024 2 1)) (Some (Date 2024 1 1))
     [\<lparr>expense_id = 1, amount = 10 :: rat, category = ''food'', date = Date 2024 1 15\<rparr>] = [] \<and>
   Date 2024 1 1 < Date 2024 2 1 \<and>
   get_stats_total ieee (Some (Date 2024 2 1)) (Some (Date 2024 1 1))
     [\<lparr>expense_id = 1, amount = 10 :: rat, category = ''food'', date = Date 2024 1 15\<rparr>] =
     Inr \<lparr>os_total = 0, os_count = 0, os_average = 0, os_min = 0, os_max = 0\<rparr>"
  using overall_zero_on_empty [where ops = ieee and start_date = "Some (Date 2024 2 1)"
      and end_date = "Some (Date 2024 1 1)" and s = "Date 2024 2 1" and t = "Date 2024 1 1"
      and db = "[\<lparr>expense_id = 1, amount = 10 :: rat, category = ''food'', date = Date 2024 1 15\<rparr>]"]
  by (simp add: apply_date_filters_def less_date_def less_eq_date_def)

subsection \<open>The inclusive date range\<close>

text \<open>
  C5. The filter keeps exactly the records whose date is not before \<open>start_date\<close> (when
  given) and not after \<open>end_date\<close> (when given). A range whose start lies after its end
  keeps nothing, and the endpoints answer it with an empty list, not with an error.
\<close>

theorem date_filter_inclusive:
  "apply_date_filters start_date end_date db =
     filter (\<lambda>e. (start_date = None \<or> the start_date \<le> date e) \<and>
                 (end_date = None \<or> date e \<le> the end_date)) db \<and>
   (t < s \<longrightarrow>
      apply_date_filters (Some s) (Some t) db = [] \<and>
      get_stats_by_category ops (Some s) (Some t) db = Inr [] \<and>
      get_stats_by_date ops (Some s) (Some t) grouping db = Inr [])"
proof -
  have "apply_date_filters start_date end_date db =
     filter (\<lambda>e. (start_date = None \<or> the start_date \<le> date e) \<and>
                 (end_date = None \<or> date e \<le> the end_date)) db"
    by (cases start_date; cases end_date) (simp_all add: apply_date_filters_filter)
  moreover have "get_stats_by_category ops (Some s) (Some t) db = Inr []" if "t < s"
    by (simp add: get_stats_by_category_def category_results_def inverted_range_empty [OF that]
        group_by_Nil order_by_desc_Nil catch_exception_def)
  moreover have "get_stats_by_date ops (Some s) (Some t) grouping db = Inr []" if "t < s"
    by (simp add: get_stats_by_date_def daily_results_def weekly_results_def
        inverted_range_empty [OF that] group_by_Nil order_by_desc_Nil catch_exception_def)
  ultimately show ?thesis
    by (simp add: inverted_range_empty)
qed

theorem date_filter_inclusive_witness:
  "Date 2024 1 1 < Date 2024 2 1 \<and>
   apply_date_filters (Some (Date 2024 2 1)) (Some (Date 2024 1 1))
     [\<lparr>expense_id = 1, amount = 10 :: rat, category = ''food'', date = Date 2024 1 15\<rparr>] = [] \<and>
   get_stats_by_category ieee (Some (Date 2024 2 1)) (Some (Date 2024 1 1))
     [\<lparr>expense_id = 1, amount = 10 :: rat, category = ''food'', date = Date 2024 1 15\<rparr>] = Inr [] \<and>
   apply_date_filters (Some (Date 2024 1 10)) None
     [\<lparr>expense_id = 1, amount = 10 :: rat, category = ''food'', date = Date 2024 1 15\<rparr>,
      \<lparr>expense_id = 2, amount = 3 :: rat, category = ''food'', date = Date 2024 1 9\<rparr>] =
     [\<lparr>expense_id = 1, amount = 10 :: rat, category = ''food'', date = Date 2024 1 15\<rparr>]"
  using date_filter_inclusive [where ops = ieee and start_date = "Some (Date 2024 1 10)" and end_date = None
      and s = "Date 2024 2 1" and t = "Date 2024 1 1"
      and db = "[\<lparr>expense_id = 1, amount = 10 :: rat, category = ''food'', date = Date 2024 1 15\<rparr>]"]
  by (simp add: apply_date_filters_def less_date_def less_eq_date_def)

subsection \<open>The default grouping\<close>

text \<open>
  C10. A request without \<open>grouping\<close> is answered as one with \<open>grouping = daily\<close>, by the
  daily query; any other value of \<open>grouping\<close> is answered by the weekly query.
\<close>

theorem grouping_default_daily:
  "get_stats_by_date ops start_date end_date None db =
     get_stats_by_date ops start_date end_date (Some ''daily'') db \<and>
   get_stats_by_date ops start_date end_date (Some ''daily'') db =
     catch_exception (append_each (daily_stat ops) (daily_results ops start_date end_date db)) \<and>
   (g \<noteq> ''daily'' \<longrightarrow>
      get_stats_by_date ops start_date end_date (Some g) db =
        catch_exception (append_each (weekly_stat ops) (weekly_results ops start_date end_date db)))"
  by (simp add: get_stats_by_date_def)

theorem grouping_default_daily_witness:
  "''weekly'' \<noteq> ''daily'' \<and>
   get_stats_by_date ieee None None (Some ''weekly'')
     [\<lparr>expense_id = 1, amount = 10 :: rat, category = ''food'', date = Date 2024 1 15\<rparr>] =
     catch_exception (append_each (weekly_stat ieee) (weekly_results ieee None None
       [\<lparr>expense_id = 1, amount = 10 :: rat, category = ''food'', date = Date 2024 1 15\<rparr>]))"
  using grouping_default_daily [where ops = ieee and g = "''weekly''" and start_date = None and end_date = None
      and db = "[\<lparr>expense_id = 1, amount = 10 :: rat, category = ''food'', date = Date 2024 1 15\<rparr>]"]
  by simp

subsection \<open>Rows of a grouped query\<close>

text \<open>
  A result row of \<^verbatim>\<open>GROUP BY\<close> with \<^verbatim>\<open>sum\<close>, \<^verbatim>\<open>count\<close> and \<^verbatim>\<open>avg\<close> belongs to a key that
  occurs in the table, and its aggregates range over the rows of that key.
\<close>

lemma sum_count_avg_row:
  assumes "row \<in> set (map (\<lambda>(k, g). (k, func_sum ops (map amount g), func_count (map expense_id g),
                                      func_avg ops (map amount g))) (group_by f rs))"
  shows "\<exists>k \<in> f ` set rs.
           row = (k, Some (fsum ops (map amount (rows_with f k rs))), length (rows_with f k rs),
                  Some (fdiv ops (fsum ops (map amount (rows_with f k rs))) (length (rows_with f k rs))))"
proof -
  from assms obtain k g where kg: "(k, g) \<in> set (group_by f rs)"
    and row: "row = (k, func_sum ops (map amount g), func_count (map expense_id g), func_avg ops (map amount g))"
    by auto
  from kg have k: "k \<in> f ` set rs" and g: "g = rows_with f k rs"
    by (simp_all add: group_by_member)
  from k have "g \<noteq> []"
    unfolding g by (rule rows_with_nonempty)
  with row g k show ?thesis
    by (auto simp: func_sum_def func_count_def func_avg_def)
qed

lemma sum_count_avg_keys:
  "map fst (map (\<lambda>(k, g). (k, func_sum ops (map amount g), func_count (map expense_id g),
                            func_avg ops (map amount g))) (group_by f rs)) = remdups (map f rs)"
  by (simp add: group_by_def comp_def)

lemma set_map_order_by_desc: "set (map g (order_by_desc f xs)) = set (map g xs)"
  by (simp add: set_order_by_desc)

subsection \<open>The category breakdown\<close>

lemma category_stat_Some:
  "category_stat ops (c, Some tot, n, Some average) =
     Inr \<lparr>cs_category = c, cs_total = fround ops tot, cs_count = n, cs_average = fround ops average\<rparr>"
  by (simp add: category_stat_def round2_def)

lemma category_results_row:
  fixes start_date end_date db
  defines "rs \<equiv> apply_date_filters start_date end_date db"
  assumes "row \<in> set (category_results ops start_date end_date db)"
  shows "\<exists>c \<in> category ` set rs.
           row = (c, Some (fsum ops (map amount (rows_with category c rs))),
                  length (rows_with category c rs),
                  Some (fdiv ops (fsum ops (map amount (rows_with category c rs)))
                        (length (rows_with category c rs))))"
  using assms(2) unfolding category_results_def set_order_by_desc rs_def
  by (rule sum_count_avg_row)

lemma get_stats_by_category_eq:
  fixes start_date end_date db
  defines "rs \<equiv> apply_date_filters start_date end_date db"
  shows "get_stats_by_category ops start_date end_date db =
     Inr (map (\<lambda>row. \<lparr>cs_category = fst row,
                      cs_total = fround ops (fsum ops (map amount (rows_with category (fst row) rs))),
                      cs_count = length (rows_with category (fst row) rs),
                      cs_average = fround ops (fdiv ops (fsum ops (map amount (rows_with category (fst row) rs)))
                                              (length (rows_with category (fst row) rs)))\<rparr>)
            (category_results ops start_date end_date db))"
proof -
  have "append_each (category_stat ops) (category_results ops start_date end_date db) =
     Inr (map (\<lambda>row. \<lparr>cs_category = fst row,
                      cs_total = fround ops (fsum ops (map amount (rows_with category (fst row) rs))),
                      cs_count = length (rows_with category (fst row) rs),
                      cs_average = fround ops (fdiv ops (fsum ops (map amount (rows_with category (fst row) rs)))
                                              (length (rows_with category (fst row) rs)))\<rparr>)
            (category_results ops start_date end_date db))"
  proof (rule append_each_map)
    fix r assume "r \<in> set (category_results ops start_date end_date db)"
    from category_results_row [OF this]
    show "category_stat ops r = Inr \<lparr>cs_category = fst r,
                      cs_total = fround ops (fsum ops (map amount (rows_with category (fst r) rs))),
                      cs_count = length (rows_with category (fst r) rs),
                      cs_average = fround ops (fdiv ops (fsum ops (map amount (rows_with category (fst r) rs)))
                                              (length (rows_with category (fst r) rs)))\<rparr>"
      unfolding rs_def by (auto simp: category_stat_Some)
  qed
  then show ?thesis
    by (simp add: get_stats_by_category_def catch_exception_def)
qed

lemma category_results_keys:
  "distinct (map fst (category_results ops start_date end_date db)) \<and>
   set (map fst (category_results ops start_date end_date db)) =
     category ` set (apply_date_filters start_date end_date db)"
proof -
  have "distinct (map fst (category_results ops start_date end_date db))"
    unfolding category_results_def
    by (simp only: distinct_map_order_by_desc sum_count_avg_keys distinct_remdups)
  moreover have "set (map fst (category_results ops start_date end_date db)) =
      set (remdups (map category (apply_date_filters start_date end_date db)))"
    unfolding category_results_def
    by (simp only: set_map_order_by_desc sum_count_avg_keys)
  ultimately show ?thesis
    by simp
qed


lemma category_results_counts:
  "sum_list (map (\<lambda>row. length (rows_with category (fst row) (apply_date_filters start_date end_date db)))
      (category_results ops start_date end_date db)) = length (apply_date_filters start_date end_date db)"
proof -
  have "sum_list (map (\<lambda>row. length (rows_with category (fst row) (apply_date_filters start_date end_date db)))
      (category_results ops start_date end_date db)) =
      sum_list (map (\<lambda>k. length (rows_with category k (apply_date_filters start_date end_date db)))
        (remdups (map category (apply_date_filters start_date end_date db))))"
    unfolding category_results_def sum_list_order_by_desc
    by (simp add: group_by_def comp_def)
  also have "\<dots> = length (apply_date_filters start_date end_date db)"
    by (rule rows_with_lengths) simp_all
  finally show ?thesis .
qed


text \<open>
  C7. The counts of the category breakdown add up to the number of filtered records; the
  entries have pairwise different categories, every filtered record has exactly one entry
  of its category, and an entry counts the records of its category.
\<close>

theorem category_counts_partition:
  "\<exists>stats. get_stats_by_category ops start_date end_date db = Inr stats \<and>
     sum_list (map cs_count stats) = length (apply_date_filters start_date end_date db) \<and>
     distinct (map cs_category stats) \<and>
     (\<forall>e \<in> set (apply_date_filters start_date end_date db).
        \<exists>!g. g \<in> set stats \<and> cs_category g = category e) \<and>
     (\<forall>g \<in> set stats.
        cs_count g = length (filter (\<lambda>e. category e = cs_category g)
                               (apply_date_filters start_date end_date db)))"
proof -
  have keys: "distinct (map fst (category_results ops start_date end_date db))"
    "set (map fst (category_results ops start_date end_date db)) =
       category ` set (apply_date_filters start_date end_date db)"
    using category_results_keys [of ops start_date end_date db] by simp_all
  define stats where "stats = map (\<lambda>row. \<lparr>cs_category = fst row,
                      cs_total = fround ops (fsum ops (map amount (rows_with category (fst row) (apply_date_filters start_date end_date db)))),
                      cs_count = length (rows_with category (fst row) (apply_date_filters start_date end_date db)),
                      cs_average = fround ops (fdiv ops (fsum ops (map amount (rows_with category (fst row) (apply_date_filters start_date end_date db))))
                                              (length (rows_with category (fst row) (apply_date_filters start_date end_date db))))\<rparr>)
            (category_results ops start_date end_date db)"
  have cats: "map cs_category stats = map fst (category_results ops start_date end_date db)"
    by (simp add: stats_def comp_def)
  have 1: "get_stats_by_category ops start_date end_date db = Inr stats"
    unfolding stats_def by (rule get_stats_by_category_eq)
  have 2: "sum_list (map cs_count stats) = length (apply_date_filters start_date end_date db)"
    unfolding stats_def by (simp add: comp_def category_results_counts)
  have 3: "distinct (map cs_category stats)"
    by (simp only: cats keys)
  have 4: "\<exists>!g. g \<in> set stats \<and> cs_category g = category e"
    if "e \<in> set (apply_date_filters start_date end_date db)" for e
  proof -
    from that have "category e \<in> set (map cs_category stats)"
      by (simp only: cats keys) simp
    then obtain g where g: "g \<in> set stats" "cs_category g = category e"
      by auto
    moreover have "g' = g" if "g' \<in> set stats" "cs_category g' = category e" for g'
      using 3 g that by (metis distinct_map inj_onD)
    ultimately show ?thesis
      by blast
  qed
  have 5: "cs_count g = length (filter (\<lambda>e. category e = cs_category g)
                               (apply_date_filters start_date end_date db))"
    if "g \<in> set stats" for g
    using that by (auto simp: stats_def rows_with_def)
  from 1 2 3 4 5 show ?thesis
    by blast
qed


subsection \<open>Evaluating the double-precision arithmetic\<close>

lemma pow2_pos: "0 < pow2 k"
  by (simp add: pow2_def)

lemma pow2_succ: "pow2 (k + 1) = 2 * pow2 k"
proof (cases "0 \<le> k")
  case True
  then show ?thesis
    by (simp add: pow2_def nat_add_distrib)
next
  case False
  then have "nat (- k) = Suc (nat (- (k + 1)))"
    by simp
  with False show ?thesis
    by (simp add: pow2_def)
qed

lemma pow2_mono: "k \<le> l \<Longrightarrow> pow2 k \<le> pow2 l"
proof (induction l rule: int_ge_induct)
  case base
  show ?case by simp
next
  case (step l)
  have "pow2 l \<le> 2 * pow2 l"
    using pow2_pos [of l] by simp
  with step.IH show ?case
    by (simp add: pow2_succ)
qed

lemma binade_search_reaches:
  assumes "pow2 t \<le> x" and "x < pow2 (t + 1)"
  shows "nat \<bar>t - k\<bar> \<le> n \<Longrightarrow> binade_search n k x = t"
proof (induction n arbitrary: k)
  case 0
  then show ?case by simp
next
  case (Suc n)
  consider "k < t" | "k = t" | "t < k"
    by linarith
  then show ?case
  proof cases
    case 1
    then have "pow2 (k + 1) \<le> pow2 t"
      by (intro pow2_mono) simp
    with assms(1) have "pow2 (k + 1) \<le> x"
      by simp
    moreover from 1 Suc.prems have "nat \<bar>t - (k + 1)\<bar> \<le> n"
      by simp
    ultimately show ?thesis
      by (simp add: Suc.IH)
  next
    case 2
    with assms show ?thesis
      by simp
  next
    case 3
    then have "pow2 (t + 1) \<le> pow2 k"
      by (intro pow2_mono) simp
    with assms(2) have less: "x < pow2 k"
      by simp
    also have "pow2 k \<le> pow2 (k + 1)"
      by (intro pow2_mono) simp
    finally have "\<not> pow2 (k + 1) \<le> x"
      by simp
    moreover from 3 Suc.prems have "nat \<bar>t - (k - 1)\<bar> \<le> n"
      by simp
    ultimately show ?thesis
      using less by (simp add: Suc.IH)
  qed
qed

lemma binade_eq:
  assumes "pow2 t \<le> \<bar>x\<bar>" and "\<bar>x\<bar> < pow2 (t + 1)" and "- 1100 \<le> t" and "t \<le> 1100"
  shows "binade x = t"
  unfolding binade_def using assms(1,2)
  by (rule binade_search_reaches) (use assms(3,4) in simp)

text \<open>Rounding a value of known binary exponent in the normal range.\<close>

lemma fl_normal:
  assumes "pow2 t \<le> \<bar>x\<bar>" and "\<bar>x\<bar> < pow2 (t + 1)" and "- 1022 \<le> t" and "t \<le> 1023"
  shows "fl x = of_int (round_half_even (x / pow2 (t - 52))) * pow2 (t - 52)"
proof -
  from assms have "binade x = t"
    by (intro binade_eq) simp_all
  moreover from assms(1) pow2_pos [of t] have "x \<noteq> 0"
    by auto
  moreover from assms(3) have "max (t - 52) (- 1074) = t - 52"
    by simp
  ultimately show ?thesis
    by (simp add: fl_def Let_def)
qed

lemma floor_rat_numeral_div:
  "\<lfloor>numeral a / numeral b :: rat\<rfloor> = numeral a div numeral b"
  using floor_divide_of_int_eq [of "numeral a" "numeral b", where ?'a = rat] by simp

lemmas double_eval = pow2_def round_half_even_def Let_def floor_rat_numeral_div

lemma fl_integers:
  "fl 1 = 1" "fl 4 = 4" "fl 5 = 5" "fl 6 = 6" "fl 10 = 10"
  "fl 15 = 15" "fl 20 = 20" "fl 30 = 30"
  using fl_normal [of 0 1] fl_normal [of 2 4] fl_normal [of 2 5] fl_normal [of 2 6]
    fl_normal [of 3 10] fl_normal [of 3 15] fl_normal [of 4 20] fl_normal [of 4 30]
  by (simp_all add: double_eval)

lemma fl_15_2: "fl (15 / 2) = 15 / 2"
  using fl_normal [of 2 "15 / 2"] by (simp add: double_eval)

text \<open>The values of the doubles of the scenarios.\<close>

lemma double_20_005_value: "double_20_005 = 5630906909096673 / 2 ^ 48"
  unfolding double_20_005_def
  using fl_normal [of 4 "20005 / 1000"] by (simp add: double_eval)

lemma double_30_005_value: "double_30_005 = 8445656676203233 / 2 ^ 48"
  unfolding double_30_005_def
  using fl_normal [of 4 "30005 / 1000"] by (simp add: double_eval)

lemma double_15_0025_value: "double_15_0025 = 8445656676203233 / 2 ^ 49"
  unfolding double_15_0025_def
  using fl_normal [of 3 "150025 / 10000"] by (simp add: double_eval)

lemma double_30_01_value: "double_30_01 = 8447064051086787 / 2 ^ 48"
  unfolding double_30_01_def
  using fl_normal [of 4 "3001 / 100"] by (simp add: double_eval)

lemma double_0_01_value: "double_0_01 = 5764607523034235 / 2 ^ 59"
  unfolding double_0_01_def
  using fl_normal [of "- 7" "1 / 100"] by (simp add: double_eval)

lemma double_0_02_value: "double_0_02 = 5764607523034235 / 2 ^ 58"
  unfolding double_0_02_def
  using fl_normal [of "- 6" "2 / 100"] by (simp add: double_eval)

lemma double_0_03_value: "double_0_03 = 1080863910568919 / 2 ^ 55"
  unfolding double_0_03_def
  using fl_normal [of "- 6" "3 / 100"] by (simp add: double_eval)

lemma double_0_015_value: "double_0_015 = 1080863910568919 / 2 ^ 56"
  unfolding double_0_015_def
  using fl_normal [of "- 7" "15 / 1000"] by (simp add: double_eval)

lemma ieee_ops:
  "fsum ieee xs = foldl (\<lambda>s x. fl (s + x)) 0 xs"
  "fdiv ieee s n = fl (s / of_nat n)"
  "fround ieee x = fl (of_int (round_half_even (x * 100)) / 100)"
  by (simp_all add: ieee_def)

text \<open>Sums, quotients and roundings of the scenarios.\<close>

lemma ieee_small_sums:
  "fsum ieee [1] = 1" "fsum ieee [5] = 5" "fsum ieee [10] = 10" "fsum ieee [20] = 20"
  "fsum ieee [4, 6] = 10" "fsum ieee [10, 5] = 15"
  by (simp_all add: ieee_ops fl_integers)

lemma ieee_small_quotients:
  "fdiv ieee 1 (Suc 0) = 1" "fdiv ieee 5 (Suc 0) = 5" "fdiv ieee 15 (Suc (Suc 0)) = 15 / 2"
  by (simp_all add: ieee_ops fl_integers fl_15_2)

lemma ieee_small_roundings:
  "fround ieee 1 = 1" "fround ieee 5 = 5" "fround ieee 10 = 10" "fround ieee 20 = 20"
  "fround ieee 15 = 15" "fround ieee (15 / 2) = 15 / 2"
  by (simp_all add: ieee_ops fl_integers fl_15_2 double_eval)

lemma food_sum: "fsum ieee [10, double_20_005] = double_30_005"
  using fl_normal [of 4 "10 + 5630906909096673 / 2 ^ 48"]
  by (simp add: ieee_ops fl_integers double_20_005_value double_30_005_value double_eval)

lemma food_quotient: "fdiv ieee double_30_005 (Suc (Suc 0)) = double_15_0025"
  using fl_normal [of 3 "8445656676203233 / 2 ^ 48 / 2"]
  by (simp add: ieee_ops double_30_005_value double_15_0025_value double_eval)

lemma food_roundings: "fround ieee double_30_005 = 30" "fround ieee double_15_0025 = 15"
  by (simp_all add: ieee_ops double_30_005_value double_15_0025_value double_eval fl_integers)

lemma food_order: "5 \<le> double_30_005" "\<not> double_30_005 \<le> 5" "30 \<noteq> double_30_01" "30 \<noteq> (3001 / 100 :: rat)"
  by (simp_all add: double_30_005_value double_30_01_value)

lemma cents_sum: "fsum ieee [double_0_01, double_0_02] = double_0_03"
proof -
  have first: "fl (5764607523034235 / 2 ^ 59) = 5764607523034235 / 2 ^ 59"
    using fl_normal [of "- 7" "5764607523034235 / 2 ^ 59"] by (simp add: double_eval)
  have second: "fl (5764607523034235 / 2 ^ 59 + 5764607523034235 / 2 ^ 58) =
      1080863910568919 / 2 ^ 55"
    using fl_normal [of "- 6" "5764607523034235 / 2 ^ 59 + 5764607523034235 / 2 ^ 58"]
    by (simp add: double_eval)
  have "fsum ieee [double_0_01, double_0_02] = fl (fl (0 + double_0_01) + double_0_02)"
    by (simp add: ieee_ops)
  also have "\<dots> = fl (fl (5764607523034235 / 2 ^ 59) + 5764607523034235 / 2 ^ 58)"
    by (simp only: double_0_01_value double_0_02_value add_0)
  also have "\<dots> = fl (5764607523034235 / 2 ^ 59 + 5764607523034235 / 2 ^ 58)"
    by (simp only: first)
  also have "\<dots> = 1080863910568919 / 2 ^ 55"
    by (rule second)
  finally show ?thesis
    by (simp only: double_0_03_value)
qed

lemma cents_quotient: "fdiv ieee double_0_03 (Suc (Suc 0)) = double_0_015"
  using fl_normal [of "- 7" "1080863910568919 / 2 ^ 55 / 2"]
  by (simp add: ieee_ops double_0_03_value double_0_015_value double_eval)

lemma cents_roundings: "fround ieee double_0_03 = double_0_03" "fround ieee double_0_015 = double_0_01"
  using fl_normal [of "- 6" "3 / 100"] fl_normal [of "- 7" "1 / 100"]
  by (simp_all add: ieee_ops double_0_03_value double_0_015_value double_0_01_value double_eval)

text \<open>
  With exact arithmetic the average of 0.01 and 0.02, and of the two doubles that stand
  for them, rounds to 0.02.
\<close>

lemma cents_exact:
  "round_half_even (((1 / 100 + 2 / 100) / 2) * 100) = 2"
  "round_half_even (((double_0_01 + double_0_02) / 2) * 100) = 2"
  "double_0_01 \<noteq> double_0_02"
  by (simp_all add: double_0_01_value double_0_02_value double_eval)

subsection \<open>Evaluating the scenarios\<close>

lemma decimal_small: "n < 10 \<Longrightarrow> decimal n = [digit n]"
  by (simp add: decimal.simps)

lemma decimal_large: "10 \<le> n \<Longrightarrow> decimal n = decimal (n div 10) @ [digit n]"
  by (subst decimal.simps) simp

lemmas calendar_eval =
  upt_rec zero_pad_def week_of_year_def days_after_jan01_def days_after_monday_def toordinal_def
  days_before_year_def days_before_month_def days_in_month_def is_leap_def digit_def
  decimal_small decimal_large

lemmas query_eval =
  apply_date_filters_def rows_with_def group_by_def order_by_desc_def func_sum_def func_count_def
  func_avg_def func_min_def func_max_def round2_def catch_exception_def str_opt_date_def

lemmas round_eval =
  ieee_small_sums ieee_small_quotients ieee_small_roundings
  food_sum food_quotient food_roundings food_order cents_sum cents_quotient cents_roundings

lemma category_scenario_eval:
  "get_stats_by_category ieee None None category_scenario =
     Inr [\<lparr>cs_category = ''food'', cs_total = 30 :: rat, cs_count = 2, cs_average = 15\<rparr>,
          \<lparr>cs_category = ''transport'', cs_total = 5 :: rat, cs_count = 1, cs_average = 5\<rparr>]"
  by (simp add: get_stats_by_category_def category_results_def category_stat_def
      category_scenario_def query_eval round_eval)


lemma year_end_labels:
  "strftime_Y_W (Date 2024 12 29) = ''2024-W52''"
  "strftime_Y_W (Date 2024 12 30) = ''2024-W53''"
  by (simp_all add: strftime_Y_W_def calendar_eval)

lemma year_end_strs:
  "str_date (Date 2024 12 29) = ''2024-12-29''"
  "str_date (Date 2024 12 30) = ''2024-12-30''"
  by (simp_all add: str_date_def calendar_eval)

lemma year_end_scenario_result:
  "get_stats_by_date ieee None None (Some ''weekly'') year_end_scenario =
     Inr [Weekly \<lparr>ws_week = ''2024-W53'', ws_start_date = ''2024-12-30'',
                  ws_end_date = ''2024-12-30'', ws_total = 20 :: rat, ws_count = 1\<rparr>,
          Weekly \<lparr>ws_week = ''2024-W52'', ws_start_date = ''2024-12-29'',
                  ws_end_date = ''2024-12-29'', ws_total = 10 :: rat, ws_count = 1\<rparr>]"
  by (simp add: get_stats_by_date_def weekly_results_def weekly_stat_def year_end_scenario_def
      query_eval year_end_labels year_end_strs round_eval)

lemma year_end_weekdays:
  "days_after_monday (Date 2024 12 29) = 6" "days_after_monday (Date 2024 12 30) = 0"
  by (simp_all add: calendar_eval)

lemma year_end_iso_weeks: "\<not> same_iso_week (Date 2024 12 29) (Date 2024 12 30)"
  by (simp add: same_iso_week_def calendar_eval)

lemma midweek_labels:
  "strftime_Y_W (Date 2024 3 5) = ''2024-W10''"
  "strftime_Y_W (Date 2024 3 7) = ''2024-W10''"
  "strftime_Y_W (Date 2024 3 11) = ''2024-W11''"
  by (simp_all add: strftime_Y_W_def calendar_eval)

lemma midweek_strs:
  "str_date (Date 2024 3 5) = ''2024-03-05''"
  "str_date (Date 2024 3 7) = ''2024-03-07''"
  "str_date (Date 2024 3 11) = ''2024-03-11''"
  by (simp_all add: str_date_def calendar_eval)


lemma midweek_scenario_result:
  "get_stats_by_date ieee None None (Some ''weekly'') midweek_scenario =
     Inr [Weekly \<lparr>ws_week = ''2024-W11'', ws_start_date = ''2024-03-11'',
                  ws_end_date = ''2024-03-11'', ws_total = 1 :: rat, ws_count = 1\<rparr>,
          Weekly \<lparr>ws_week = ''2024-W10'', ws_start_date = ''2024-03-05'',
                  ws_end_date = ''2024-03-07'', ws_total = 10 :: rat, ws_count = 2\<rparr>]"
  by (simp add: get_stats_by_date_def weekly_results_def weekly_stat_def midweek_scenario_def
      query_eval midweek_labels midweek_strs round_eval less_eq_date_def)

lemma new_year_labels:
  "strftime_Y_W (Date 2024 1 1) = ''2024-W01''"
  "sunday_week_label (Date 2024 1 1) = ''2024-W00''"
  "monday_week_label (Date 2024 1 1) = ''2024-W01''"
  "str_date (Date 2024 1 1) = ''2024-01-01''"
  by (simp_all add: strftime_Y_W_def sunday_week_label_def monday_week_label_def 
      weekdays_through_def str_date_def calendar_eval)

subsection \<open>The week number counts Mondays\<close>

lemma week_count_next:
  fixes n a :: nat
  assumes "a < 7"
  shows "(Suc n + 7 - (if a = 6 then 0 else Suc a)) div 7 =
           (n + 7 - a) div 7 + (if (if a = 6 then 0 else Suc a) = 0 then 1 else 0)"
proof (cases "a = 6")
  case True
  have "(n + 8) div 7 = (n + 1) div 7 + 1"
    by presburger
  with True show ?thesis
    by simp
next
  case False
  with assms have "Suc n + 7 - Suc a = n + 7 - a"
    by simp
  with False show ?thesis
    by simp
qed

lemma week_count_step:
  "(Suc n + 7 - (j + Suc n) mod 7) div 7 =
     (n + 7 - (j + n) mod 7) div 7 + (if (j + Suc n) mod 7 = 0 then 1 else 0)"
proof -
  define a where "a = (j + n) mod 7"
  have a: "a < 7"
    by (simp add: a_def)
  have next_day: "(j + Suc n) mod 7 = (if a = 6 then 0 else Suc a)"
    unfolding a_def by (simp add: mod_Suc)
  show ?thesis
    unfolding next_day a_def [symmetric] using a by (rule week_count_next)
qed

lemma week_count_base: "(if j mod 7 = 0 then 1 else 0) = (7 - j mod 7) div (7::nat)"
proof -
  have "j mod 7 < 7"
    by simp
  then show ?thesis
    by (cases "j mod 7 = 0") simp_all
qed

lemma count_mondays:
  "length (filter (\<lambda>k. (j + k) mod 7 = 0) [0..<Suc n]) = (n + 7 - (j + n) mod 7) div 7"
proof (induction n)
  case 0
  show ?case
    using week_count_base [of j] by simp
next
  case (Suc n)
  have "length (filter (\<lambda>k. (j + k) mod 7 = 0) [0..<Suc (Suc n)]) =
          length (filter (\<lambda>k. (j + k) mod 7 = 0) [0..<Suc n]) +
          (if (j + Suc n) mod 7 = 0 then 1 else 0)"
    by simp
  then show ?case
    by (simp only: Suc.IH week_count_step)
qed

lemma toordinal_jan01:
  assumes "1 \<le> day d"
  shows "toordinal d = toordinal (Date (year d) 1 1) + days_after_jan01 d"
  using assms by (simp add: toordinal_def days_after_jan01_def days_before_month_def)

lemma week_of_year_counts_mondays:
  assumes "1 \<le> day d"
  shows "week_of_year d = weekdays_through 0 d"
proof -
  have "weekdays_through 0 d =
     length (filter (\<lambda>k. (toordinal (Date (year d) 1 1) + 6 + k) mod 7 = 0)
               [0..<Suc (days_after_jan01 d)])"
    by (simp add: weekdays_through_def add.commute add.left_commute)
  also have "\<dots> = (days_after_jan01 d + 7 -
      (toordinal (Date (year d) 1 1) + 6 + days_after_jan01 d) mod 7) div 7"
    by (rule count_mondays)
  also have "toordinal (Date (year d) 1 1) + 6 + days_after_jan01 d = toordinal d + 6"
    by (simp add: toordinal_jan01 [OF assms])
  finally show ?thesis
    by (simp add: week_of_year_def days_after_monday_def)
qed

lemma strftime_Y_W_monday:
  "1 \<le> day d \<Longrightarrow> strftime_Y_W d = monday_week_label d"
  by (simp add: strftime_Y_W_def monday_week_label_def week_of_year_counts_mondays)

subsection \<open>The weekly breakdown\<close>

lemma func_min_Min: "xs \<noteq> [] \<Longrightarrow> func_min xs = Some (Min (set xs))"
  by (cases xs) (simp_all add: func_min_def Min.set_eq_fold [symmetric])

lemma func_max_Max: "xs \<noteq> [] \<Longrightarrow> func_max xs = Some (Max (set xs))"
  by (cases xs) (simp_all add: func_max_def Max.set_eq_fold [symmetric])


lemma weekly_stat_Some:
  "weekly_stat ops (w, Some a, Some b, Some tot, n) =
     Inr (Weekly \<lparr>ws_week = w, ws_start_date = str_date a, ws_end_date = str_date b,
                  ws_total = fround ops tot, ws_count = n\<rparr>)"
  by (simp add: weekly_stat_def round2_def str_opt_date_def)

lemma weekly_results_row:
  fixes start_date end_date db
  defines "rs \<equiv> apply_date_filters start_date end_date db"
  assumes "row \<in> set (weekly_results ops start_date end_date db)"
  shows "\<exists>w \<in> (\<lambda>e. strftime_Y_W (date e)) ` set rs.
           row = (w, Some (Min (date ` set (rows_with (\<lambda>e. strftime_Y_W (date e)) w rs))),
                  Some (Max (date ` set (rows_with (\<lambda>e. strftime_Y_W (date e)) w rs))),
                  Some (fsum ops (map amount (rows_with (\<lambda>e. strftime_Y_W (date e)) w rs))),
                  length (rows_with (\<lambda>e. strftime_Y_W (date e)) w rs))"
proof -
  from assms(2) obtain w g where wg: "(w, g) \<in> set (group_by (\<lambda>e. strftime_Y_W (date e)) rs)"
    and row: "row = (w, func_min (map date g), func_max (map date g), func_sum ops (map amount g),
                     func_count (map expense_id g))"
    unfolding weekly_results_def set_order_by_desc rs_def by auto
  from wg have w: "w \<in> (\<lambda>e. strftime_Y_W (date e)) ` set rs"
    and g: "g = rows_with (\<lambda>e. strftime_Y_W (date e)) w rs"
    by (simp_all add: group_by_member)
  from w have "g \<noteq> []"
    unfolding g by (rule rows_with_nonempty)
  then have "func_min (map date g) = Some (Min (date ` set g))"
    and "func_max (map date g) = Some (Max (date ` set g))"
    and "func_sum ops (map amount g) = Some (fsum ops (map amount g))"
    by (simp_all add: func_min_Min func_max_Max func_sum_def)
  with row w show ?thesis
    unfolding g by (auto simp: func_count_def)
qed

lemma weekly_results_keys:
  "distinct (map fst (weekly_results ops start_date end_date db)) \<and>
   set (map fst (weekly_results ops start_date end_date db)) =
     (\<lambda>e. strftime_Y_W (date e)) ` set (apply_date_filters start_date end_date db)"
proof -
  have keys: "map fst (map (\<lambda>(w, g). (w, func_min (map date g), func_max (map date g),
                        func_sum ops (map amount g), func_count (map expense_id g)))
          (group_by (\<lambda>e. strftime_Y_W (date e)) (apply_date_filters start_date end_date db))) =
       remdups (map (\<lambda>e. strftime_Y_W (date e)) (apply_date_filters start_date end_date db))"
    by (simp add: group_by_def comp_def)
  have "distinct (map fst (weekly_results ops start_date end_date db))"
    unfolding weekly_results_def
    by (simp only: distinct_map_order_by_desc keys distinct_remdups)
  moreover have "set (map fst (weekly_results ops start_date end_date db)) =
      set (remdups (map (\<lambda>e. strftime_Y_W (date e)) (apply_date_filters start_date end_date db)))"
    unfolding weekly_results_def
    by (simp only: set_map_order_by_desc keys)
  ultimately show ?thesis
    by simp
qed

lemma get_stats_by_date_weekly:
  fixes start_date end_date db
  defines "rs \<equiv> apply_date_filters start_date end_date db"
  assumes "g \<noteq> ''daily''"
  shows "get_stats_by_date ops start_date end_date (Some g) db =
     Inr (map (\<lambda>row. Weekly \<lparr>ws_week = fst row,
          ws_start_date = str_date (Min (date ` set (rows_with (\<lambda>e. strftime_Y_W (date e)) (fst row) rs))),
          ws_end_date = str_date (Max (date ` set (rows_with (\<lambda>e. strftime_Y_W (date e)) (fst row) rs))),
          ws_total = fround ops (fsum ops (map amount (rows_with (\<lambda>e. strftime_Y_W (date e)) (fst row) rs))),
          ws_count = length (rows_with (\<lambda>e. strftime_Y_W (date e)) (fst row) rs)\<rparr>)
            (weekly_results ops start_date end_date db))"
proof -
  have "append_each (weekly_stat ops) (weekly_results ops start_date end_date db) =
     Inr (map (\<lambda>row. Weekly \<lparr>ws_week = fst row,
          ws_start_date = str_date (Min (date ` set (rows_with (\<lambda>e. strftime_Y_W (date e)) (fst row) rs))),
          ws_end_date = str_date (Max (date ` set (rows_with (\<lambda>e. strftime_Y_W (date e)) (fst row) rs))),
          ws_total = fround ops (fsum ops (map amount (rows_with (\<lambda>e. strftime_Y_W (date e)) (fst row) rs))),
          ws_count = length (rows_with (\<lambda>e. strftime_Y_W (date e)) (fst row) rs)\<rparr>)
            (weekly_results ops start_date end_date db))"
  proof (rule append_each_map)
    fix r assume "r \<in> set (weekly_results ops start_date end_date db)"
    from weekly_results_row [OF this]
    show "weekly_stat ops r = Inr (Weekly \<lparr>ws_week = fst r,
          ws_start_date = str_date (Min (date ` set (rows_with (\<lambda>e. strftime_Y_W (date e)) (fst r) rs))),
          ws_end_date = str_date (Max (date ` set (rows_with (\<lambda>e. strftime_Y_W (date e)) (fst r) rs))),
          ws_total = fround ops (fsum ops (map amount (rows_with (\<lambda>e. strftime_Y_W (date e)) (fst r) rs))),
          ws_count = length (rows_with (\<lambda>e. strftime_Y_W (date e)) (fst r) rs)\<rparr>)"
      unfolding rs_def by (auto simp: weekly_stat_Some)
  qed
  with assms(2) show ?thesis
    by (simp add: get_stats_by_date_def catch_exception_def)
qed

text \<open>
  C8. Every entry of the weekly breakdown is a weekly entry whose bucket holds at least
  one filtered record; its \<open>start_date\<close> is the text of the least and its \<open>end_date\<close> the
  text of the greatest date among the filtered records of its week label.
\<close>

theorem weekly_bucket_dates:
  "\<exists>stats. get_stats_by_date ops start_date end_date (Some ''weekly'') db = Inr stats \<and>
     (\<forall>x \<in> set stats. \<exists>b. x = Weekly b \<and>
        rows_with (\<lambda>e. strftime_Y_W (date e)) (ws_week b)
          (apply_date_filters start_date end_date db) \<noteq> [] \<and>
        ws_start_date b = str_date (Min (date ` set (rows_with (\<lambda>e. strftime_Y_W (date e)) (ws_week b)
          (apply_date_filters start_date end_date db)))) \<and>
        ws_end_date b = str_date (Max (date ` set (rows_with (\<lambda>e. strftime_Y_W (date e)) (ws_week b)
          (apply_date_filters start_date end_date db)))))"
proof -
  have nonempty: "rows_with (\<lambda>e. strftime_Y_W (date e)) (fst row)
          (apply_date_filters start_date end_date db) \<noteq> []"
    if "row \<in> set (weekly_results ops start_date end_date db)" for row
  proof -
    from that have "fst row \<in> set (map fst (weekly_results ops start_date end_date db))"
      by simp
    then have "fst row \<in> (\<lambda>e. strftime_Y_W (date e)) ` set (apply_date_filters start_date end_date db)"
      by (simp only: weekly_results_keys)
    then show ?thesis
      by (rule rows_with_nonempty)
  qed
  have weekly: "''weekly'' \<noteq> ''daily''"
    by simp
  show ?thesis
    by (rule exI, rule conjI, rule get_stats_by_date_weekly [OF weekly]) (auto simp: nonempty)
qed

theorem weekly_bucket_dates_witness:
  "get_stats_by_date ieee None None (Some ''weekly'') midweek_scenario =
     Inr [Weekly \<lparr>ws_week = ''2024-W11'', ws_start_date = ''2024-03-11'',
                  ws_end_date = ''2024-03-11'', ws_total = 1 :: rat, ws_count = 1\<rparr>,
          Weekly \<lparr>ws_week = ''2024-W10'', ws_start_date = ''2024-03-05'',
                  ws_end_date = ''2024-03-07'', ws_total = 10 :: rat, ws_count = 2\<rparr>] \<and>
   days_after_monday (Date 2024 3 5) = 1 \<and>
   days_after_monday (Date 2024 3 7) = 3 \<and>
   str_date (Min (date ` set (rows_with (\<lambda>e. strftime_Y_W (date e)) ''2024-W10''
     (apply_date_filters None None midweek_scenario)))) = ''2024-03-05'' \<and>
   str_date (Max (date ` set (rows_with (\<lambda>e. strftime_Y_W (date e)) ''2024-W10''
     (apply_date_filters None None midweek_scenario)))) = ''2024-03-07''"
proof -
  have days: "days_after_monday (Date 2024 3 5) = 1" "days_after_monday (Date 2024 3 7) = 3"
    by (simp_all add: calendar_eval)
  from weekly_bucket_dates [of ieee None None midweek_scenario]
  obtain stats where result: "get_stats_by_date ieee None None (Some ''weekly'') midweek_scenario = Inr stats"
    and dates: "\<forall>x \<in> set stats. \<exists>b. x = Weekly b \<and>
        rows_with (\<lambda>e. strftime_Y_W (date e)) (ws_week b)
          (apply_date_filters None None midweek_scenario) \<noteq> [] \<and>
        ws_start_date b = str_date (Min (date ` set (rows_with (\<lambda>e. strftime_Y_W (date e)) (ws_week b)
          (apply_date_filters None None midweek_scenario)))) \<and>
        ws_end_date b = str_date (Max (date ` set (rows_with (\<lambda>e. strftime_Y_W (date e)) (ws_week b)
          (apply_date_filters None None midweek_scenario))))"
    by blast
  from result have "stats =
     [Weekly \<lparr>ws_week = ''2024-W11'', ws_start_date = ''2024-03-11'',
              ws_end_date = ''2024-03-11'', ws_total = 1 :: rat, ws_count = 1\<rparr>,
      Weekly \<lparr>ws_week = ''2024-W10'', ws_start_date = ''2024-03-05'',
              ws_end_date = ''2024-03-07'', ws_total = 10 :: rat, ws_count = 2\<rparr>]"
    by (simp only: midweek_scenario_result sum.inject)
  then have "Weekly \<lparr>ws_week = ''2024-W10'', ws_start_date = ''2024-03-05'',
                  ws_end_date = ''2024-03-07'', ws_total = 10 :: rat, ws_count = 2\<rparr> \<in> set stats"
    by simp
  with dates have "\<exists>b. Weekly \<lparr>ws_week = ''2024-W10'', ws_start_date = ''2024-03-05'',
                  ws_end_date = ''2024-03-07'', ws_total = 10 :: rat, ws_count = 2\<rparr> = Weekly b \<and>
        rows_with (\<lambda>e. strftime_Y_W (date e)) (ws_week b)
          (apply_date_filters None None midweek_scenario) \<noteq> [] \<and>
        ws_start_date b = str_date (Min (date ` set (rows_with (\<lambda>e. strftime_Y_W (date e)) (ws_week b)
          (apply_date_filters None None midweek_scenario)))) \<and>
        ws_end_date b = str_date (Max (date ` set (rows_with (\<lambda>e. strftime_Y_W (date e)) (ws_week b)
          (apply_date_filters None None midweek_scenario))))"
    by (rule bspec)
  then have "str_date (Min (date ` set (rows_with (\<lambda>e. strftime_Y_W (date e)) ''2024-W10''
     (apply_date_filters None None midweek_scenario)))) = ''2024-03-05'' \<and>
   str_date (Max (date ` set (rows_with (\<lambda>e. strftime_Y_W (date e)) ''2024-W10''
     (apply_date_filters None None midweek_scenario)))) = ''2024-03-07''"
    by auto
  with days midweek_scenario_result show ?thesis
    by blast
qed


theorem category_counts_partition_witness:
  "get_stats_by_category ieee None None category_scenario =
     Inr [\<lparr>cs_category = ''food'', cs_total = 30 :: rat, cs_count = 2, cs_average = 15\<rparr>,
          \<lparr>cs_category = ''transport'', cs_total = 5 :: rat, cs_count = 1, cs_average = 5\<rparr>] \<and>
   sum_list (map cs_count
     [\<lparr>cs_category = ''food'', cs_total = 30 :: rat, cs_count = 2, cs_average = 15\<rparr>,
      \<lparr>cs_category = ''transport'', cs_total = 5 :: rat, cs_count = 1, cs_average = 5\<rparr>]) =
     length (apply_date_filters None None category_scenario) \<and>
   length (apply_date_filters None None category_scenario) = 3"
proof -
  from category_counts_partition [of ieee None None category_scenario]
  obtain stats where result: "get_stats_by_category ieee None None category_scenario = Inr stats"
    and total: "sum_list (map cs_count stats) = length (apply_date_filters None None category_scenario)"
    by blast
  from result have stats: "stats =
     [\<lparr>cs_category = ''food'', cs_total = 30 :: rat, cs_count = 2, cs_average = 15\<rparr>,
      \<lparr>cs_category = ''transport'', cs_total = 5 :: rat, cs_count = 1, cs_average = 5\<rparr>]"
    by (simp add: category_scenario_eval)
  from total [unfolded stats] have "length (apply_date_filters None None category_scenario) = 3"
    by simp
  with total [unfolded stats] category_scenario_eval show ?thesis
    by blast
qed

subsection \<open>The category scenario\<close>

text \<open>
  C3 as the specification states it, with a total of 30.01 for food, is not what the
  category breakdown returns, whether 30.01 is read as the decimal or as the double
  nearest to it.
\<close>

theorem category_scenario_counterexample:
  "get_stats_by_category ieee None None category_scenario \<noteq>
     Inr [\<lparr>cs_category = ''food'', cs_total = 3001 / 100, cs_count = 2, cs_average = 15\<rparr>,
          \<lparr>cs_category = ''transport'', cs_total = 5 :: rat, cs_count = 1, cs_average = 5\<rparr>] \<and>
   get_stats_by_category ieee None None category_scenario \<noteq>
     Inr [\<lparr>cs_category = ''food'', cs_total = double_30_01, cs_count = 2, cs_average = 15\<rparr>,
          \<lparr>cs_category = ''transport'', cs_total = 5 :: rat, cs_count = 1, cs_average = 5\<rparr>]"
  by (simp add: category_scenario_eval food_order)

text \<open>
  C3, amended. On the three records of the scenario the category breakdown returns food
  with total 30.00, count 2 and average 15.00, then transport with total 5.00, count 1 and
  average 5.00.
\<close>

theorem category_scenario_output:
  "get_stats_by_category ieee None None category_scenario =
     Inr [\<lparr>cs_category = ''food'', cs_total = 30 :: rat, cs_count = 2, cs_average = 15\<rparr>,
          \<lparr>cs_category = ''transport'', cs_total = 5 :: rat, cs_count = 1, cs_average = 5\<rparr>]"
  by (rule category_scenario_eval)

subsection \<open>The two days at the end of 2024\<close>

text \<open>
  C2 as the specification states it: different week labels although the two dates lie in
  one ISO week. The two dates do not lie in one ISO week.
\<close>

theorem year_end_counterexample:
  "\<not> (strftime_Y_W (Date 2024 12 29) \<noteq> strftime_Y_W (Date 2024 12 30) \<and>
      same_iso_week (Date 2024 12 29) (Date 2024 12 30))"
  by (simp add: year_end_iso_weeks)

text \<open>
  C2, amended. The weekly breakdown of the records of Sunday 29 and Monday 30 December
  2024 has two buckets, 2024-W53 for the Monday and 2024-W52 for the Sunday; the two
  dates lie in different ISO weeks as well, the Monday starting a new one.
\<close>

theorem year_end_buckets:
  "get_stats_by_date ieee None None (Some ''weekly'') year_end_scenario =
     Inr [Weekly \<lparr>ws_week = ''2024-W53'', ws_start_date = ''2024-12-30'',
                  ws_end_date = ''2024-12-30'', ws_total = 20 :: rat, ws_count = 1\<rparr>,
          Weekly \<lparr>ws_week = ''2024-W52'', ws_start_date = ''2024-12-29'',
                  ws_end_date = ''2024-12-29'', ws_total = 10 :: rat, ws_count = 1\<rparr>] \<and>
   map date year_end_scenario = [Date 2024 12 29, Date 2024 12 30] \<and>
   days_after_monday (Date 2024 12 29) = 6 \<and>
   days_after_monday (Date 2024 12 30) = 0 \<and>
   strftime_Y_W (Date 2024 12 29) \<noteq> strftime_Y_W (Date 2024 12 30) \<and>
   \<not> same_iso_week (Date 2024 12 29) (Date 2024 12 30)"
  by (simp add: year_end_scenario_result year_end_weekdays year_end_labels year_end_iso_weeks)
     (simp add: year_end_scenario_def)

subsection \<open>The week label\<close>

text \<open>
  C1 as the specification states it: the bucket of a record carries the Sunday-start
  label. A record of Monday 1 January 2024 is in the bucket 2024-W01; the days before the
  first Sunday of 2024, this Monday among them, have the Sunday-start label 2024-W00.
\<close>

theorem sunday_start_counterexample:
  "get_stats_by_date ieee None None (Some ''weekly'')
     [\<lparr>expense_id = 1, amount = 10 :: rat, category = ''food'', date = Date 2024 1 1\<rparr>] =
     Inr [Weekly \<lparr>ws_week = ''2024-W01'', ws_start_date = ''2024-01-01'',
                  ws_end_date = ''2024-01-01'', ws_total = 10 :: rat, ws_count = 1\<rparr>] \<and>
   sunday_week_label (Date 2024 1 1) = ''2024-W00'' \<and>
   days_after_monday (Date 2024 1 1) = 0"
proof -
  have "days_after_monday (Date 2024 1 1) = 0"
    by (simp add: calendar_eval)
  moreover have "get_stats_by_date ieee None None (Some ''weekly'')
     [\<lparr>expense_id = 1, amount = 10 :: rat, category = ''food'', date = Date 2024 1 1\<rparr>] =
     Inr [Weekly \<lparr>ws_week = ''2024-W01'', ws_start_date = ''2024-01-01'',
                  ws_end_date = ''2024-01-01'', ws_total = 10 :: rat, ws_count = 1\<rparr>]"
    by (simp add: get_stats_by_date_def weekly_results_def weekly_stat_def
        query_eval round_eval del: One_nat_def) (simp only: new_year_labels)
  ultimately show ?thesis
    by (simp only: new_year_labels simp_thms)
qed

text \<open>
  C1, amended. Let every record of the table have a valid date. Then for every filtered
  record the weekly breakdown has exactly one bucket named \<^verbatim>\<open>{year}-W{nn}\<close> after the
  record's date, where \<open>nn\<close> is the Monday-start week of the year: the number of Mondays
  from 1 January through the date, so 0 before the first Monday and one more from each
  Monday on. Every entry is a weekly bucket, and a bucket counts the filtered records
  that have its label.
\<close>

theorem weekly_bucket_label:
  assumes "\<forall>r \<in> set db. valid_date (date r)"
    and "e \<in> set (apply_date_filters start_date end_date db)"
  shows "\<exists>stats. get_stats_by_date ops start_date end_date (Some ''weekly'') db = Inr stats \<and>
     (\<exists>!b. Weekly b \<in> set stats \<and> ws_week b = monday_week_label (date e)) \<and>
     (\<forall>x \<in> set stats. \<exists>b. x = Weekly b \<and>
        ws_count b = length (filter (\<lambda>r. monday_week_label (date r) = ws_week b)
                               (apply_date_filters start_date end_date db)))"
proof -
  define rs where "rs = apply_date_filters start_date end_date db"
  define F where "F = (\<lambda>row :: string \<times> date option \<times> date option \<times> 'a option \<times> nat.
         \<lparr>ws_week = fst row,
          ws_start_date = str_date (Min (date ` set (rows_with (\<lambda>e. strftime_Y_W (date e)) (fst row) rs))),
          ws_end_date = str_date (Max (date ` set (rows_with (\<lambda>e. strftime_Y_W (date e)) (fst row) rs))),
          ws_total = fround ops (fsum ops (map amount (rows_with (\<lambda>e. strftime_Y_W (date e)) (fst row) rs))),
          ws_count = length (rows_with (\<lambda>e. strftime_Y_W (date e)) (fst row) rs)\<rparr>)"
  define stats where "stats = map (\<lambda>row. Weekly (F row)) (weekly_results ops start_date end_date db)"
  have F_week: "ws_week (F row) = fst row" for row
    by (simp add: F_def)
  have F_count: "ws_count (F row) = length (filter (\<lambda>r. strftime_Y_W (date r) = fst row) rs)" for row
    by (simp add: F_def rows_with_def)
  have F_cong: "F r1 = F r2" if "fst r1 = fst r2" for r1 r2
    using that by (simp add: F_def)
  have label: "strftime_Y_W (date r) = monday_week_label (date r)" if "r \<in> set rs" for r
  proof -
    from that have "r \<in> set db"
      by (simp add: rs_def apply_date_filters_filter)
    with assms(1) have "valid_date (date r)"
      by blast
    then show ?thesis
      by (simp add: strftime_Y_W_monday valid_date_def)
  qed
  have keys: "set (map fst (weekly_results ops start_date end_date db)) =
       (\<lambda>e. strftime_Y_W (date e)) ` set rs"
    using weekly_results_keys [of ops start_date end_date db] by (simp add: rs_def)
  have weekly: "''weekly'' \<noteq> ''daily''"
    by simp
  have 1: "get_stats_by_date ops start_date end_date (Some ''weekly'') db = Inr stats"
    unfolding stats_def F_def rs_def by (rule get_stats_by_date_weekly [OF weekly])
  have member: "Weekly b \<in> set stats \<longleftrightarrow>
      (\<exists>row \<in> set (weekly_results ops start_date end_date db). b = F row)" for b
    unfolding stats_def by auto
  from assms(2) have e: "e \<in> set rs"
    by (simp add: rs_def)
  then have "strftime_Y_W (date e) \<in> set (map fst (weekly_results ops start_date end_date db))"
    unfolding keys by (rule imageI)
  then obtain row where row: "row \<in> set (weekly_results ops start_date end_date db)"
    and "fst row = strftime_Y_W (date e)"
    by auto
  then have fst_row: "fst row = monday_week_label (date e)"
    by (simp add: label [OF e])
  have 2: "\<exists>!b. Weekly b \<in> set stats \<and> ws_week b = monday_week_label (date e)"
  proof (rule ex1I [where a = "F row"])
    from row have "Weekly (F row) \<in> set stats"
      unfolding member by blast
    with fst_row show "Weekly (F row) \<in> set stats \<and> ws_week (F row) = monday_week_label (date e)"
      by (simp add: F_week)
  next
    fix b assume b: "Weekly b \<in> set stats \<and> ws_week b = monday_week_label (date e)"
    then obtain r2 where r2: "b = F r2"
      unfolding member by blast
    with b fst_row have "fst r2 = fst row"
      by (simp add: F_week)
    then show "b = F row"
      unfolding r2 by (rule F_cong)
  qed
  have 3: "\<exists>b. x = Weekly b \<and>
        ws_count b = length (filter (\<lambda>r. monday_week_label (date r) = ws_week b) rs)"
    if "x \<in> set stats" for x
  proof -
    from that obtain row where x: "x = Weekly (F row)"
      unfolding stats_def by auto
    have "filter (\<lambda>r. strftime_Y_W (date r) = fst row) rs =
          filter (\<lambda>r. monday_week_label (date r) = fst row) rs"
      by (rule filter_cong) (simp_all add: label)
    then have "ws_count (F row) =
        length (filter (\<lambda>r. monday_week_label (date r) = ws_week (F row)) rs)"
      by (simp add: F_count F_week)
    with x show ?thesis
      by blast
  qed
  from 1 2 3 show ?thesis
    unfolding rs_def by blast
qed

theorem weekly_bucket_label_witness:
  "valid_date (Date 2024 12 29) \<and> valid_date (Date 2024 12 30) \<and>
   \<lparr>expense_id = 2, amount = 20, category = ''food'', date = Date 2024 12 30\<rparr>
     \<in> set (apply_date_filters None None year_end_scenario) \<and>
   monday_week_label (Date 2024 12 30) = ''2024-W53'' \<and>
   (\<exists>stats. get_stats_by_date ieee None None (Some ''weekly'') year_end_scenario = Inr stats \<and>
      (\<exists>b. Weekly b \<in> set stats \<and> ws_week b = ''2024-W53''))"
proof -
  have dates: "valid_date (Date 2024 12 29)" "valid_date (Date 2024 12 30)"
    by (simp_all add: valid_date_def days_in_month_def is_leap_def)
  then have valid: "\<forall>r \<in> set year_end_scenario. valid_date (date r)"
    by (simp add: year_end_scenario_def)
  have member: "\<lparr>expense_id = 2, amount = 20, category = ''food'', date = Date 2024 12 30\<rparr>
     \<in> set (apply_date_filters None None year_end_scenario)"
    by (simp add: year_end_scenario_def apply_date_filters_def)
  have label: "monday_week_label (Date 2024 12 30) = ''2024-W53''"
    using strftime_Y_W_monday [of "Date 2024 12 30"] by (simp add: year_end_labels)
  from weekly_bucket_label [where ops = ieee, OF valid member]
  obtain stats where "get_stats_by_date ieee None None (Some ''weekly'') year_end_scenario = Inr stats"
    and "\<exists>!b. Weekly b \<in> set stats \<and> ws_week b = monday_week_label (Date 2024 12 30)"
    by auto
  then have "\<exists>stats. get_stats_by_date ieee None None (Some ''weekly'') year_end_scenario = Inr stats \<and>
      (\<exists>b. Weekly b \<in> set stats \<and> ws_week b = ''2024-W53'')"
    unfolding label by blast
  with dates member label show ?thesis
    by blast
qed

subsection \<open>The monthly breakdown\<close>










end
